theory Spec2Isabelle
  imports Main "HOL-Library.Word"
begin

section \<open>The default PRNG plugin of forge.random (js/random.js)\<close>

text \<open>
  js/random.js defines, inside \<^verbatim>\<open>initModule(forge)\<close>, the AES-128 plugin \<^verbatim>\<open>prng_aes\<close>
  (formatKey, formatSeed, cipher, increment), the load-time collection of bootstrap
  entropy and the public API \<^verbatim>\<open>forge.random\<close>. The module receives the rest of forge
  (util, aes, md, prng) through its argument \<^verbatim>\<open>forge\<close>; none of those files is part of
  this source tree.
\<close>

subsection \<open>JavaScript values\<close>

text \<open>
  A byte string is a JavaScript string holding one character per byte (forge's binary
  encoding), so a character code is a value in 0..255.
\<close>

type_synonym byte = "8 word"
type_synonym bytes = "byte list"

text \<open>
  The elements of the arrays the plugin handles. \<open>Number n\<close> is a JavaScript number
  holding the integer \<open>n\<close>; the arithmetic of the model is that of the integers, which is
  the arithmetic of JavaScript numbers as long as the magnitude stays below \<open>2 ^ 53\<close>.
  \<open>Undefined\<close> is a hole of \<^verbatim>\<open>new Array(4)\<close> or a read past the end of an array.
\<close>

datatype jsval = Undefined | NaN | Number int

datatype js_error = ConfigurationError | TypeError | Error string

text \<open>Array read and write as JavaScript does them: a read out of range is
  \<^verbatim>\<open>undefined\<close>, a write out of range extends the array with holes.\<close>

definition js_get :: "jsval list \<Rightarrow> nat \<Rightarrow> jsval" where
  "js_get a i = (if i < length a then a ! i else Undefined)"

definition js_set :: "jsval list \<Rightarrow> nat \<Rightarrow> jsval \<Rightarrow> jsval list" where
  "js_set a i v =
     (if i < length a then a[i := v] else a @ replicate (i - length a) Undefined @ [v])"

text \<open>\<^verbatim>\<open>ToInt32\<close>, the conversion every bit operator applies to its operands: the value
  modulo \<open>2 ^ 32\<close>, read as two's complement; \<^verbatim>\<open>undefined\<close> and \<^verbatim>\<open>NaN\<close> convert to 0.\<close>

definition int32 :: "int \<Rightarrow> int" where
  "int32 n = (let u = n mod 2 ^ 32 in if 2 ^ 31 \<le> u then u - 2 ^ 32 else u)"

definition to_int32 :: "jsval \<Rightarrow> int" where
  "to_int32 v = (case v of Number n \<Rightarrow> int32 n | _ \<Rightarrow> 0)"

text \<open>The prefix increment \<^verbatim>\<open>++x\<close>: \<^verbatim>\<open>ToNumber(x) + 1\<close>.\<close>

definition js_incr :: "jsval \<Rightarrow> jsval" where
  "js_incr v = (case v of Number n \<Rightarrow> Number (n + 1) | _ \<Rightarrow> NaN)"

subsection \<open>The byte buffer of forge.util\<close>

text \<open>
  Modelled from the spec: \<^verbatim>\<open>forge.util.createBuffer\<close> and the buffer's methods
  \<^verbatim>\<open>getInt32\<close>, \<^verbatim>\<open>putInt32\<close> and \<^verbatim>\<open>getBytes\<close> live in js/util.js, which is not among the
  sources. The model is a byte string with a read position. The spec packs integers
  "most-significant bit first" and speaks of "the block-width counter representation":
  an integer is four bytes in big-endian order. A buffer holds the bytes written and the
  position of the next read.
\<close>

record ByteBuffer =
  data :: bytes
  read :: nat

definition createBuffer :: "bytes \<Rightarrow> ByteBuffer" where
  "createBuffer b = \<lparr>data = b, read = 0\<rparr>"

text \<open>
  Modelled from the spec: the code of the character at a position (js/util.js reads the
  buffer's string with \<^verbatim>\<open>charCodeAt\<close>). Past the end JavaScript yields \<^verbatim>\<open>NaN\<close>, which
  the bit operators read as 0.
\<close>

definition byte_at :: "bytes \<Rightarrow> nat \<Rightarrow> int" where
  "byte_at d i = (if i < length d then uint (d ! i) else 0)"

text \<open>
  Modelled from the spec: \<^verbatim>\<open>getInt32()\<close> of js/util.js (absent). It reads the four
  bytes at the read position as one big-endian 32-bit integer, advances the position by
  four, and returns the integer as a signed 32-bit number.
\<close>

definition getInt32 :: "ByteBuffer \<Rightarrow> jsval \<times> ByteBuffer" where
  "getInt32 buf =
     (let d = data buf; r = read buf;
          u = byte_at d r * 2 ^ 24 + byte_at d (r + 1) * 2 ^ 16
            + byte_at d (r + 2) * 2 ^ 8 + byte_at d (r + 3)
      in (Number (int32 u), buf\<lparr>read := r + 4\<rparr>))"

text \<open>
  Modelled from the spec: \<^verbatim>\<open>putInt32(i)\<close> of js/util.js (absent). It appends the four
  bytes of \<^verbatim>\<open>ToInt32(i)\<close>, most significant first: \<^verbatim>\<open>i >> 24 & 0xFF\<close> down to
  \<^verbatim>\<open>i & 0xFF\<close>.
\<close>

definition putInt32 :: "ByteBuffer \<Rightarrow> jsval \<Rightarrow> ByteBuffer" where
  "putInt32 buf v =
     (let i = to_int32 v
      in buf\<lparr>data := data buf @
           [word_of_int (i div 2 ^ 24 mod 256), word_of_int (i div 2 ^ 16 mod 256),
            word_of_int (i div 2 ^ 8 mod 256), word_of_int (i mod 256)]\<rparr>)"

text \<open>
  Modelled from the spec: \<^verbatim>\<open>getBytes()\<close> of js/util.js (absent), called without a
  count. It returns every byte not yet read and clears the buffer.
\<close>

definition getBytes :: "ByteBuffer \<Rightarrow> bytes \<times> ByteBuffer" where
  "getBytes buf = (drop (read buf) (data buf), \<lparr>data = [], read = 0\<rparr>)"

subsection \<open>The block cipher of forge.aes\<close>

text \<open>
  Modelled from the spec: \<^verbatim>\<open>forge.aes._expandKey(key, decrypt)\<close> and
  \<^verbatim>\<open>forge.aes._updateBlock(w, input, output, decrypt)\<close> live in js/aes.js, which is not
  among the sources; the spec treats the cipher primitive "as a supplied function". They
  are parameters of the model: key expansion maps the key words and the decrypt flag to a
  key schedule of some type \<open>'ks\<close>, the block update maps a key schedule, the input words
  and the decrypt flag to the four words it stores in \<^verbatim>\<open>output[0..3]\<close>. Either may throw.
\<close>

record 'ks aes =
  aes_expandKey :: "jsval list \<Rightarrow> bool \<Rightarrow> js_error + 'ks"
  aes_updateBlock :: "'ks \<Rightarrow> jsval list \<Rightarrow> bool \<Rightarrow> js_error + jsval \<times> jsval \<times> jsval \<times> jsval"

subsection \<open>prng_aes.formatKey and prng_aes.formatSeed\<close>

text \<open>
  \<^verbatim>\<open>
  prng_aes.formatKey = function(key) {
    var tmp = forge.util.createBuffer(key);
    key = new Array(4);
    key[0] = tmp.getInt32(); key[1] = tmp.getInt32();
    key[2] = tmp.getInt32(); key[3] = tmp.getInt32();
    return forge.aes._expandKey(key, false);
  };
  \<close>
\<close>

definition formatKey :: "'ks aes \<Rightarrow> bytes \<Rightarrow> js_error + 'ks" where
  "formatKey A key =
     (let tmp = createBuffer key;
          (k0, tmp) = getInt32 tmp;
          (k1, tmp) = getInt32 tmp;
          (k2, tmp) = getInt32 tmp;
          (k3, tmp) = getInt32 tmp
      in aes_expandKey A [k0, k1, k2, k3] False)"

text \<open>
  \<^verbatim>\<open>
  prng_aes.formatSeed = function(seed) {
    var tmp = forge.util.createBuffer(seed);
    seed = new Array(4);
    seed[0] = tmp.getInt32(); seed[1] = tmp.getInt32();
    seed[2] = tmp.getInt32(); seed[3] = tmp.getInt32();
    return seed;
  };
  \<close>
\<close>

definition formatSeed :: "bytes \<Rightarrow> jsval list" where
  "formatSeed seed =
     (let tmp = createBuffer seed;
          (s0, tmp) = getInt32 tmp;
          (s1, tmp) = getInt32 tmp;
          (s2, tmp) = getInt32 tmp;
          (s3, tmp) = getInt32 tmp
      in [s0, s1, s2, s3])"

subsection \<open>prng_aes.cipher\<close>

text \<open>
  The module keeps two objects for the cipher, created once when the module loads:
  \<^verbatim>\<open>
  var _prng_aes_output = new Array(4);
  var _prng_aes_buffer = forge.util.createBuffer();
  \<close>
\<close>

record prng_aes_state =
  prng_aes_output :: "jsval list"
  prng_aes_buffer :: ByteBuffer

definition init_state :: prng_aes_state where
  "init_state = \<lparr>prng_aes_output = replicate 4 Undefined, prng_aes_buffer = createBuffer []\<rparr>"

text \<open>
  \<^verbatim>\<open>
  prng_aes.cipher = function(key, seed) {
    forge.aes._updateBlock(key, seed, _prng_aes_output, false);
    _prng_aes_buffer.putInt32(_prng_aes_output[0]);
    _prng_aes_buffer.putInt32(_prng_aes_output[1]);
    _prng_aes_buffer.putInt32(_prng_aes_output[2]);
    _prng_aes_buffer.putInt32(_prng_aes_output[3]);
    return _prng_aes_buffer.getBytes();
  };
  \<close>
  The function takes the module's state and returns it updated with the bytes, or the
  exception the block update threw.
\<close>

definition cipher ::
  "'ks aes \<Rightarrow> prng_aes_state \<Rightarrow> 'ks \<Rightarrow> jsval list \<Rightarrow> js_error + bytes \<times> prng_aes_state" where
  "cipher A m key seed =
     (case aes_updateBlock A key seed False of
        Inl e \<Rightarrow> Inl e
      | Inr (o0, o1, o2, o3) \<Rightarrow>
          let out = js_set (js_set (js_set (js_set (prng_aes_output m) 0 o0) 1 o1) 2 o2) 3 o3;
              buf = putInt32 (prng_aes_buffer m) (js_get out 0);
              buf = putInt32 buf (js_get out 1);
              buf = putInt32 buf (js_get out 2);
              buf = putInt32 buf (js_get out 3);
              (rval, buf) = getBytes buf
          in Inr (rval, \<lparr>prng_aes_output = out, prng_aes_buffer = buf\<rparr>))"

subsection \<open>prng_aes.increment\<close>

text \<open>
  \<^verbatim>\<open>
  prng_aes.increment = function(seed) {
    // FIXME: do we care about carry or signed issues?
    ++seed[3];
    return seed;
  };
  \<close>
  The function mutates the array it is given and returns the same reference, so arrays
  live in a store: a reference is an address, the store maps the addresses of the live
  arrays to their contents. A reference that is no array (\<^verbatim>\<open>undefined\<close>) makes the
  property access throw a TypeError.
\<close>

type_synonym ref = nat
type_synonym store = "ref \<rightharpoonup> jsval list"

definition increment :: "store \<Rightarrow> ref \<Rightarrow> js_error + store \<times> ref" where
  "increment h seed =
     (case h seed of
        None \<Rightarrow> Inl TypeError
      | Some a \<Rightarrow> Inr (h(seed \<mapsto> js_set a 3 (js_incr (js_get a 3))), seed))"

subsection \<open>Entropy collected while the module loads\<close>

text \<open>
  What the module reads from its surroundings while it loads: whether it runs under
  Node.js (\<^verbatim>\<open>typeof module === 'object' && module.exports\<close>), whether
  \<^verbatim>\<open>window.crypto.getRandomValues\<close> exists, the clock (\<^verbatim>\<open>+new Date()\<close>), the
  \<^verbatim>\<open>navigator\<close> object when there is one, and whether jQuery is there. The navigator is
  the list of its enumerable keys in the order of \<^verbatim>\<open>for (key in navigator)\<close>, each with
  what reading \<^verbatim>\<open>navigator[key]\<close> does: it throws, or it yields a string or a value of
  another type. The loop reads a property twice (for \<^verbatim>\<open>typeof\<close> and for \<^verbatim>\<open>+=\<close>); both
  reads do the same.
\<close>

datatype nav_value = StringValue string | OtherValue

type_synonym nav_property = "js_error + nav_value"

record environment =
  nodejs :: bool
  getRandomValues :: bool
  now :: int
  navigator :: "(string \<times> nav_property) list option"
  jquery :: bool

text \<open>
  Modelled from the spec: the generator context \<^verbatim>\<open>_ctx = forge.prng.create(prng_aes)\<close>
  comes from js/prng.js, which is not among the sources. Of the context the model keeps
  the calls the module makes on it, in order: \<^verbatim>\<open>collectInt(value, bits)\<close> and
  \<^verbatim>\<open>collect(bytes)\<close> of the spec's accumulator, each taken to return.
\<close>

datatype ctx_call = CollectInt int nat | Collect string

text \<open>
  The body of the \<^verbatim>\<open>try\<close> block, from the string collected so far:
  \<^verbatim>\<open>
  if(typeof(navigator[key]) == 'string') { _navBytes += navigator[key]; }
  \<close>
\<close>

definition probe :: "string \<Rightarrow> nav_property \<Rightarrow> js_error + string" where
  "probe navBytes p =
     (case p of
        Inl e \<Rightarrow> Inl e
      | Inr (StringValue s) \<Rightarrow> Inr (navBytes @ s)
      | Inr OtherValue \<Rightarrow> Inr navBytes)"

text \<open>
  \<^verbatim>\<open>
  for(var key in navigator) {
    try { ... }
    catch(e) { /* Silently ignore this ... */ }
  }
  \<close>
\<close>

fun nav_loop :: "(string \<times> nav_property) list \<Rightarrow> string \<Rightarrow> string" where
  "nav_loop [] navBytes = navBytes"
| "nav_loop ((key, p) # rest) navBytes =
     nav_loop rest (case probe navBytes p of Inl e \<Rightarrow> navBytes | Inr navBytes' \<Rightarrow> navBytes')"

text \<open>
  \<^verbatim>\<open>
  if(!_nodejs && !(typeof window !== 'undefined' &&
    window.crypto && window.crypto.getRandomValues)) {
    _ctx.collectInt(+new Date(), 32);
    if(typeof(navigator) !== 'undefined') {
      var _navBytes = '';
      for(var key in navigator) { ... }
      _ctx.collect(_navBytes);
    }
    if($) { $().mousemove(...); $().keypress(...); }
  }
  \<close>
  The jQuery branch only registers handlers for later events; it makes no call on the
  context while the module loads.
\<close>

definition load_entropy :: "environment \<Rightarrow> ctx_call list" where
  "load_entropy env =
     (if \<not> nodejs env \<and> \<not> getRandomValues env
      then CollectInt (now env) 32 #
           (case navigator env of
              None \<Rightarrow> []
            | Some nav \<Rightarrow> [Collect (nav_loop nav [])])
      else [])"

text \<open>Whether the module registers its mouse and keyboard handlers:
  \<^verbatim>\<open>mousemove\<close> collects \<^verbatim>\<open>clientX\<close> and \<^verbatim>\<open>clientY\<close> (16 bits each),
  \<^verbatim>\<open>keypress\<close> collects \<^verbatim>\<open>charCode\<close> (8 bits), when the events come.\<close>

definition registers_handlers :: "environment \<Rightarrow> bool" where
  "registers_handlers env \<longleftrightarrow> \<not> nodejs env \<and> \<not> getRandomValues env \<and> jquery env"

subsection \<open>Notions used in the statements\<close>

text \<open>The value of a byte string read in big-endian order: the first byte is the most
  significant.\<close>

definition big_endian :: "bytes \<Rightarrow> int" where
  "big_endian bs = foldl (\<lambda>acc b. acc * 256 + uint b) 0 bs"

text \<open>The four 32-bit words of the first 16 bytes of a byte string: consecutive groups of
  four bytes, each read in big-endian order, as signed 32-bit numbers.\<close>

definition words_of :: "bytes \<Rightarrow> jsval list" where
  "words_of bs =
     [Number (int32 (big_endian (take 4 bs))),
      Number (int32 (big_endian (take 4 (drop 4 bs)))),
      Number (int32 (big_endian (take 4 (drop 8 bs)))),
      Number (int32 (big_endian (take 4 (drop 12 bs))))]"

text \<open>\<^verbatim>\<open>ToUint32\<close>: the 32-bit pattern of a value, read as unsigned.\<close>

definition to_uint32 :: "jsval \<Rightarrow> int" where
  "to_uint32 v = to_int32 v mod 2 ^ 32"

text \<open>A block of four 32-bit words read as one 128-bit integer, word 0 the most
  significant.\<close>

definition block_value :: "jsval list \<Rightarrow> int" where
  "block_value b =
     to_uint32 (js_get b 0) * 2 ^ 96 + to_uint32 (js_get b 1) * 2 ^ 64
     + to_uint32 (js_get b 2) * 2 ^ 32 + to_uint32 (js_get b 3)"

text \<open>A byte string cut or filled to 16 bytes: its first 16 bytes, followed by zero
  bytes when it has fewer.\<close>

definition pad16 :: "bytes \<Rightarrow> bytes" where
  "pad16 bs = take 16 bs @ replicate (16 - length bs) 0"

text \<open>The four bytes of a 32-bit integer, most significant first.\<close>

definition be_bytes :: "int \<Rightarrow> bytes" where
  "be_bytes i =
     [word_of_int (i div 2 ^ 24 mod 256), word_of_int (i div 2 ^ 16 mod 256),
      word_of_int (i div 2 ^ 8 mod 256), word_of_int (i mod 256)]"

text \<open>A buffer is empty when every byte written has been read. The module's buffer is
  created empty, and \<^verbatim>\<open>getBytes()\<close> leaves it so.\<close>

definition buffer_empty :: "ByteBuffer \<Rightarrow> bool" where
  "buffer_empty buf \<longleftrightarrow> read buf = length (data buf)"

text \<open>The integers on which the arithmetic of JavaScript numbers is exact; every 32-bit
  word, signed or unsigned, is one.\<close>

definition exact_number :: "int \<Rightarrow> bool" where
  "exact_number n \<longleftrightarrow> \<bar>n\<bar> < 2 ^ 53"

text \<open>The strings of the navigator properties that can be read and hold a string, in the
  order of enumeration.\<close>

definition accessible_strings :: "(string \<times> nav_property) list \<Rightarrow> string list" where
  "accessible_strings nav = [s. (key, Inr (StringValue s)) \<leftarrow> nav]"

text \<open>
  Modelled from the spec: js/aes.js is absent and the spec treats the cipher as "a
  supplied function". To run the plugin at concrete inputs this instance supplies one: the
  key schedule is the list of key words, and the block update returns the first four
  input words. No general statement below depends on it.
\<close>

definition plain_aes :: "jsval list aes" where
  "plain_aes =
     \<lparr>aes_expandKey = (\<lambda>key decrypt. Inr key),
      aes_updateBlock = (\<lambda>w input decrypt.
        Inr (js_get input 0, js_get input 1, js_get input 2, js_get input 3))\<rparr>"

section \<open>Properties\<close>

subsection \<open>32-bit arithmetic\<close>

lemma int32_mod: "int32 n mod 2 ^ 32 = n mod 2 ^ 32"
  by (simp add: int32_def Let_def)

lemma to_uint32_Number: "to_uint32 (Number n) = n mod 2 ^ 32"
  by (simp add: to_uint32_def to_int32_def int32_def Let_def)

lemma byte_split:
  fixes i :: int
  shows "(i div 16777216 mod 256) * 16777216 + (i div 65536 mod 256) * 65536
     + (i div 256 mod 256) * 256 + i mod 256 = i mod 4294967296"
proof -
  have a: "i mod 4294967296 = 256 * (i div 256 mod 16777216) + i mod 256"
    using zmod_zmult2_eq [of 16777216 i 256] by simp
  have b: "i div 256 mod 16777216 = 256 * (i div 65536 mod 65536) + i div 256 mod 256"
    using zmod_zmult2_eq [of 65536 "i div 256" 256] zdiv_zmult2_eq [of 256 i 256] by simp
  have c: "i div 65536 mod 65536 = 256 * (i div 16777216 mod 256) + i div 65536 mod 256"
    using zmod_zmult2_eq [of 256 "i div 65536" 256] zdiv_zmult2_eq [of 256 i 65536] by simp
  show ?thesis
    unfolding a b c by (simp add: algebra_simps)
qed

subsection \<open>Big-endian groups of four bytes\<close>

lemma big_endian_4:
  "big_endian [a, b, c, d] = uint a * 16777216 + uint b * 65536 + uint c * 256 + uint d"
  by (simp add: big_endian_def)

lemma big_endian_4_range:
  "0 \<le> big_endian [a, b, c, d] \<and> big_endian [a, b, c, d] < 2 ^ 32"
proof -
  have "uint a < 256" "uint b < 256" "uint c < 256" "uint d < 256"
    using uint_bounded [of a] uint_bounded [of b] uint_bounded [of c] uint_bounded [of d]
    by simp_all
  moreover have "0 \<le> uint a" "0 \<le> uint b" "0 \<le> uint c" "0 \<le> uint d"
    by simp_all
  ultimately show ?thesis
    unfolding big_endian_4 by simp
qed

lemma take4_drop:
  assumes "r + 4 \<le> length d"
  shows "take 4 (drop r d) = [d ! r, d ! (r + 1), d ! (r + 2), d ! (r + 3)]"
proof -
  have "length (take 4 (drop r d)) = 4"
    using assms by simp
  moreover have "\<And>i. i < 4 \<Longrightarrow> take 4 (drop r d) ! i = d ! (r + i)"
    using assms by simp
  ultimately show ?thesis
    by (simp add: list_eq_iff_nth_eq nth_Cons' numeral_eq_Suc less_Suc_eq)
qed

lemma group_uint32:
  assumes "r + 4 \<le> length d"
  shows "to_uint32 (Number (int32 (big_endian (take 4 (drop r d))))) =
    big_endian (take 4 (drop r d))"
proof -
  let ?g = "big_endian (take 4 (drop r d))"
  have "0 \<le> ?g \<and> ?g < 2 ^ 32"
    unfolding take4_drop [OF assms] by (rule big_endian_4_range)
  then have "?g mod 2 ^ 32 = ?g"
    by simp
  then show ?thesis
    by (simp only: to_uint32_Number int32_mod)
qed

lemma words_of_uint32:
  assumes "16 \<le> length bs"
  shows "map to_uint32 (words_of bs) =
    [big_endian (take 4 bs), big_endian (take 4 (drop 4 bs)),
     big_endian (take 4 (drop 8 bs)), big_endian (take 4 (drop 12 bs))]"
proof -
  have "to_uint32 (Number (int32 (big_endian (take 4 (drop 0 bs))))) =
      big_endian (take 4 (drop 0 bs))"
    using assms by (intro group_uint32) simp
  moreover have "to_uint32 (Number (int32 (big_endian (take 4 (drop 4 bs))))) =
      big_endian (take 4 (drop 4 bs))"
    using assms by (intro group_uint32) simp
  moreover have "to_uint32 (Number (int32 (big_endian (take 4 (drop 8 bs))))) =
      big_endian (take 4 (drop 8 bs))"
    using assms by (intro group_uint32) simp
  moreover have "to_uint32 (Number (int32 (big_endian (take 4 (drop 12 bs))))) =
      big_endian (take 4 (drop 12 bs))"
    using assms by (intro group_uint32) simp
  ultimately show ?thesis
    by (simp add: words_of_def)
qed

lemma words_of_take: "words_of (take 16 bs) = words_of bs"
  by (simp add: words_of_def drop_take)

subsection \<open>Reading words from a buffer\<close>

lemma getInt32_big_endian:
  assumes "read buf + 4 \<le> length (data buf)"
  shows "getInt32 buf =
    (Number (int32 (big_endian (take 4 (drop (read buf) (data buf))))),
     buf\<lparr>read := read buf + 4\<rparr>)"
proof -
  let ?d = "data buf" and ?r = "read buf"
  have "big_endian (take 4 (drop ?r ?d)) =
      byte_at ?d ?r * 2 ^ 24 + byte_at ?d (?r + 1) * 2 ^ 16
      + byte_at ?d (?r + 2) * 2 ^ 8 + byte_at ?d (?r + 3)"
    using assms by (simp add: take4_drop big_endian_def byte_at_def algebra_simps)
  then show ?thesis
    by (simp add: getInt32_def Let_def)
qed

lemma formatSeed_words:
  assumes "16 \<le> length seed"
  shows "formatSeed seed = words_of seed"
  using assms
  by (simp add: formatSeed_def words_of_def createBuffer_def Let_def getInt32_big_endian)

lemma formatKey_words:
  assumes "16 \<le> length key"
  shows "formatKey A key = aes_expandKey A (words_of key) False"
  using assms
  by (simp add: formatKey_def words_of_def createBuffer_def Let_def getInt32_big_endian)

subsection \<open>Inputs of any length\<close>

lemma length_pad16: "length (pad16 bs) = 16"
  by (simp add: pad16_def min_def)

lemma nth_pad16:
  assumes "i < 16"
  shows "pad16 bs ! i = (if i < length bs then bs ! i else 0)"
  using assms by (simp add: pad16_def nth_append)

lemma byte_at_pad16:
  assumes "i < 16"
  shows "byte_at (pad16 bs) i = byte_at bs i"
  using assms by (simp add: byte_at_def length_pad16 nth_pad16)

lemma formatKey_pad16: "formatKey A key = formatKey A (pad16 key)"
  by (simp add: formatKey_def createBuffer_def getInt32_def Let_def byte_at_pad16)

lemma pad16_five: "pad16 [1, 2, 3, 4, 5] = [1, 2, 3, 4, 5, 0, 0, 0, 0, 0, 0, 0, 0, 0, 0, 0]"
  by (simp add: pad16_def numeral_eq_Suc)

lemma pad16_twenty:
  "pad16 [255, 0, 0, 0, 0, 0, 0, 1, 0, 0, 0, 2, 0, 0, 0, 3, 9, 9, 9, 9] =
     [255, 0, 0, 0, 0, 0, 0, 1, 0, 0, 0, 2, 0, 0, 0, 3]"
  by (simp add: pad16_def)

subsection \<open>formatKey and formatSeed on 16 bytes\<close>

text \<open>
  C6: for every 16-byte input, formatSeed returns the four 32-bit words obtained by
  reading consecutive groups of four bytes in big-endian order. The words are signed
  32-bit numbers; read as unsigned, each is exactly the big-endian value of its group.
\<close>

theorem formatSeed_sixteen_bytes:
  assumes "length seed = 16"
  shows "formatSeed seed = words_of seed \<and>
    map to_uint32 (formatSeed seed) =
      [big_endian (take 4 seed), big_endian (take 4 (drop 4 seed)),
       big_endian (take 4 (drop 8 seed)), big_endian (take 4 (drop 12 seed))]"
  using assms by (simp add: formatSeed_words words_of_uint32)

theorem formatSeed_sixteen_bytes_witness:
  "length [255, 255, 255, 254, 128, 0, 0, 0, 0, 0, 0, 1, 1, 2, 3, 4 :: byte] = 16 \<and>
   formatSeed [255, 255, 255, 254, 128, 0, 0, 0, 0, 0, 0, 1, 1, 2, 3, 4] =
     [Number (- 2), Number (- 2147483648), Number 1, Number 16909060] \<and>
   map to_uint32 (formatSeed [255, 255, 255, 254, 128, 0, 0, 0, 0, 0, 0, 1, 1, 2, 3, 4]) =
     [4294967294, 2147483648, 1, 16909060]"
  using formatSeed_sixteen_bytes [of "[255, 255, 255, 254, 128, 0, 0, 0, 0, 0, 0, 1, 1, 2, 3, 4]"]
  by (simp add: words_of_def big_endian_def int32_def to_uint32_def to_int32_def)

text \<open>
  C5: for every 16-byte input, formatKey splits the input into four 32-bit words in
  big-endian order and returns what key expansion returns for those words with the
  decrypt flag off (the schedule for encryption).
\<close>

theorem formatKey_sixteen_bytes:
  assumes "length key = 16"
  shows "formatKey A key = aes_expandKey A (words_of key) False \<and>
    map to_uint32 (words_of key) =
      [big_endian (take 4 key), big_endian (take 4 (drop 4 key)),
       big_endian (take 4 (drop 8 key)), big_endian (take 4 (drop 12 key))]"
  using assms by (simp add: formatKey_words words_of_uint32)

theorem formatKey_sixteen_bytes_witness:
  "length [0, 1, 2, 3, 4, 5, 6, 7, 8, 9, 10, 11, 12, 13, 14, 15 :: byte] = 16 \<and>
   formatKey plain_aes [0, 1, 2, 3, 4, 5, 6, 7, 8, 9, 10, 11, 12, 13, 14, 15] =
     aes_expandKey plain_aes
       [Number 66051, Number 67438087, Number 134810123, Number 202182159] False \<and>
   map to_uint32 (words_of [0, 1, 2, 3, 4, 5, 6, 7, 8, 9, 10, 11, 12, 13, 14, 15]) =
     [66051, 67438087, 134810123, 202182159]"
  using formatKey_sixteen_bytes
    [of "[0, 1, 2, 3, 4, 5, 6, 7, 8, 9, 10, 11, 12, 13, 14, 15]" plain_aes]
  by (simp add: words_of_def big_endian_def int32_def to_uint32_def to_int32_def)

subsection \<open>formatKey and formatSeed on inputs of other lengths\<close>

text \<open>
  C9: formatKey and formatSeed depend only on the first 16 bytes of their input. Two
  inputs of at least 16 bytes that agree on their first 16 bytes give the same results,
  and the bytes after the sixteenth are ignored, not rejected: formatSeed returns the
  words of the first 16 bytes, and formatKey returns what key expansion returns for them.
\<close>

theorem format_ignores_trailing_bytes:
  assumes "16 \<le> length a" and "16 \<le> length b" and "take 16 a = take 16 b"
  shows "formatKey A a = formatKey A b \<and> formatSeed a = formatSeed b \<and>
    formatKey A a = aes_expandKey A (words_of (take 16 a)) False \<and>
    formatSeed a = words_of (take 16 a)"
proof -
  have "words_of b = words_of (take 16 a)"
    using assms(3) words_of_take [of b] by simp
  then show ?thesis
    using assms(1,2) by (simp add: formatKey_words formatSeed_words words_of_take)
qed

theorem format_ignores_trailing_bytes_witness:
  "16 \<le> length [0, 1, 2, 3, 4, 5, 6, 7, 8, 9, 10, 11, 12, 13, 14, 15, 99 :: byte] \<and>
   16 \<le> length [0, 1, 2, 3, 4, 5, 6, 7, 8, 9, 10, 11, 12, 13, 14, 15, 7, 8, 9 :: byte] \<and>
   formatKey plain_aes [0, 1, 2, 3, 4, 5, 6, 7, 8, 9, 10, 11, 12, 13, 14, 15, 99] =
     formatKey plain_aes [0, 1, 2, 3, 4, 5, 6, 7, 8, 9, 10, 11, 12, 13, 14, 15, 7, 8, 9] \<and>
   formatSeed [0, 1, 2, 3, 4, 5, 6, 7, 8, 9, 10, 11, 12, 13, 14, 15, 99] =
     formatSeed [0, 1, 2, 3, 4, 5, 6, 7, 8, 9, 10, 11, 12, 13, 14, 15, 7, 8, 9] \<and>
   formatKey plain_aes [0, 1, 2, 3, 4, 5, 6, 7, 8, 9, 10, 11, 12, 13, 14, 15, 99] =
     Inr [Number 66051, Number 67438087, Number 134810123, Number 202182159] \<and>
   formatSeed [0, 1, 2, 3, 4, 5, 6, 7, 8, 9, 10, 11, 12, 13, 14, 15, 99] =
     [Number 66051, Number 67438087, Number 134810123, Number 202182159]"
proof -
  let ?a = "[0, 1, 2, 3, 4, 5, 6, 7, 8, 9, 10, 11, 12, 13, 14, 15, 99 :: byte]"
  let ?b = "[0, 1, 2, 3, 4, 5, 6, 7, 8, 9, 10, 11, 12, 13, 14, 15, 7, 8, 9 :: byte]"
  have la: "16 \<le> length ?a" and lb: "16 \<le> length ?b" and ab: "take 16 ?a = take 16 ?b"
    by simp_all
  have w: "words_of (take 16 ?a) =
      [Number 66051, Number 67438087, Number 134810123, Number 202182159]"
    by (simp add: words_of_def big_endian_def int32_def)
  have e: "aes_expandKey plain_aes
      [Number 66051, Number 67438087, Number 134810123, Number 202182159] False =
      Inr [Number 66051, Number 67438087, Number 134810123, Number 202182159]"
    by (simp add: plain_aes_def)
  from format_ignores_trailing_bytes [OF la lb ab, of plain_aes]
  have "formatKey plain_aes ?a = formatKey plain_aes ?b"
    and "formatSeed ?a = formatSeed ?b"
    and "formatKey plain_aes ?a =
      Inr [Number 66051, Number 67438087, Number 134810123, Number 202182159]"
    and "formatSeed ?a = [Number 66051, Number 67438087, Number 134810123, Number 202182159]"
    unfolding w e by blast+
  with la lb show ?thesis
    by blast
qed

text \<open>
  C1 states that formatKey fails with ConfigurationError on every input whose length is
  not 16. The function has no length check: it reads four words and hands them to key
  expansion. On the 5-byte input below it returns the key schedule of the five bytes
  followed by eleven zero bytes, and on the 17-byte input that of the first 16 bytes.
\<close>

theorem formatKey_wrong_length_counterexample:
  "length [1, 2, 3, 4, 5 :: byte] = 5 \<and>
   formatKey plain_aes [1, 2, 3, 4, 5] =
     Inr [Number 16909060, Number 83886080, Number 0, Number 0] \<and>
   formatKey plain_aes [1, 2, 3, 4, 5] \<noteq> Inl ConfigurationError \<and>
   length [1, 2, 3, 4, 5, 6, 7, 8, 9, 10, 11, 12, 13, 14, 15, 16, 17 :: byte] = 17 \<and>
   formatKey plain_aes [1, 2, 3, 4, 5, 6, 7, 8, 9, 10, 11, 12, 13, 14, 15, 16, 17] =
     Inr [Number 16909060, Number 84281096, Number 151653132, Number 219025168] \<and>
   formatKey plain_aes [1, 2, 3, 4, 5, 6, 7, 8, 9, 10, 11, 12, 13, 14, 15, 16, 17] \<noteq>
     Inl ConfigurationError"
proof -
  have "formatKey plain_aes [1, 2, 3, 4, 5] =
      Inr [Number 16909060, Number 83886080, Number 0, Number 0]"
    unfolding formatKey_pad16 [of plain_aes "[1, 2, 3, 4, 5]"] pad16_five
    by (simp add: formatKey_words words_of_def big_endian_def int32_def plain_aes_def)
  moreover have
    "formatKey plain_aes [1, 2, 3, 4, 5, 6, 7, 8, 9, 10, 11, 12, 13, 14, 15, 16, 17] =
      Inr [Number 16909060, Number 84281096, Number 151653132, Number 219025168]"
    by (simp add: formatKey_words words_of_def big_endian_def int32_def plain_aes_def)
  ultimately show ?thesis
    by simp
qed

text \<open>
  C1, amended: formatKey makes no length check and raises no error of its own. For every
  input, of any length, it returns exactly what key expansion returns for the four
  big-endian words of the input cut or filled to 16 bytes: a longer input is silently
  truncated to its first 16 bytes, a shorter one is silently padded with zero bytes.
\<close>

theorem formatKey_no_length_check:
  "formatKey A key = aes_expandKey A (words_of (pad16 key)) False"
proof -
  have "formatKey A (pad16 key) = aes_expandKey A (words_of (pad16 key)) False"
    by (rule formatKey_words) (simp add: length_pad16)
  then show ?thesis
    by (simp only: formatKey_pad16 [of A key])
qed

theorem formatKey_no_length_check_witness:
  "formatKey plain_aes [1, 2, 3, 4, 5] =
     Inr [Number 16909060, Number 83886080, Number 0, Number 0] \<and>
   formatKey plain_aes [255, 0, 0, 0, 0, 0, 0, 1, 0, 0, 0, 2, 0, 0, 0, 3, 9, 9, 9, 9] =
     Inr [Number (- 16777216), Number 1, Number 2, Number 3]"
  using formatKey_no_length_check [of plain_aes "[1, 2, 3, 4, 5]"]
    formatKey_no_length_check
      [of plain_aes "[255, 0, 0, 0, 0, 0, 0, 1, 0, 0, 0, 2, 0, 0, 0, 3, 9, 9, 9, 9]"]
  unfolding pad16_five pad16_twenty
  by (simp add: words_of_def big_endian_def int32_def plain_aes_def)

subsection \<open>cipher\<close>

lemma js_get_js_set: "js_get (js_set a i v) j = (if j = i then v else js_get a j)"
  by (auto simp add: js_get_def js_set_def nth_append)

lemma uint_byte_of_int: "uint (word_of_int x :: byte) = x mod 256"
  by (simp add: uint_word_of_int)

lemma length_be_bytes: "length (be_bytes i) = 4"
  by (simp add: be_bytes_def)

lemma be_bytes_numerals:
  "be_bytes i =
     [word_of_int (i div 16777216 mod 256), word_of_int (i div 65536 mod 256),
      word_of_int (i div 256 mod 256), word_of_int (i mod 256)]"
  unfolding be_bytes_def
  by (simp only: power_numeral num.simps numeral_times_numeral mult_num_simps pow.simps
      sqr.simps)

lemma big_endian_be_bytes: "big_endian (be_bytes i) = i mod 4294967296"
  unfolding be_bytes_numerals big_endian_4 uint_byte_of_int mod_mod_trivial
  by (rule byte_split)

lemma words_of_be_bytes:
  "words_of (be_bytes a @ be_bytes b @ be_bytes c @ be_bytes d) =
     [Number (int32 a), Number (int32 b), Number (int32 c), Number (int32 d)]"
proof -
  have i: "\<And>x. int32 (x mod 4294967296) = int32 x"
    by (simp add: int32_def Let_def)
  show ?thesis
    by (simp add: words_of_def length_be_bytes big_endian_be_bytes i)
qed

lemma int32_to_int32: "int32 (to_int32 v) = to_int32 v"
proof -
  have "int32 0 = 0"
    by (simp add: int32_def)
  moreover have "\<And>n. int32 (int32 n) = int32 n"
    by (simp add: int32_def Let_def)
  ultimately show ?thesis
    by (simp add: to_int32_def split: jsval.split)
qed

lemma putInt32_be_bytes: "putInt32 buf v = buf\<lparr>data := data buf @ be_bytes (to_int32 v)\<rparr>"
  by (simp add: putInt32_def be_bytes_def Let_def)

lemma cipher_result:
  assumes "aes_updateBlock A key seed False = Inr (o0, o1, o2, o3)"
  shows "cipher A m key seed =
    Inr (drop (read (prng_aes_buffer m))
           (data (prng_aes_buffer m) @ be_bytes (to_int32 o0) @ be_bytes (to_int32 o1)
             @ be_bytes (to_int32 o2) @ be_bytes (to_int32 o3)),
         \<lparr>prng_aes_output =
            js_set (js_set (js_set (js_set (prng_aes_output m) 0 o0) 1 o1) 2 o2) 3 o3,
          prng_aes_buffer = \<lparr>data = [], read = 0\<rparr>\<rparr>)"
  using assms
  by (simp add: cipher_def Let_def js_get_js_set putInt32_be_bytes getBytes_def)

text \<open>
  C10: if the module's buffer is empty when cipher is called and the block update
  returns four words, cipher returns exactly 16 bytes, the big-endian serialization of
  those words (read back in big-endian order the bytes give the words' 32-bit values),
  and the buffer is empty afterwards.
\<close>

theorem cipher_empty_buffer:
  assumes "buffer_empty (prng_aes_buffer m)"
    and "aes_updateBlock A key seed False = Inr (o0, o1, o2, o3)"
  shows "\<exists>rval m'. cipher A m key seed = Inr (rval, m') \<and>
    rval = be_bytes (to_int32 o0) @ be_bytes (to_int32 o1)
             @ be_bytes (to_int32 o2) @ be_bytes (to_int32 o3) \<and>
    length rval = 16 \<and>
    words_of rval =
      [Number (to_int32 o0), Number (to_int32 o1), Number (to_int32 o2), Number (to_int32 o3)] \<and>
    buffer_empty (prng_aes_buffer m')"
  using assms
  by (simp add: cipher_result buffer_empty_def words_of_be_bytes length_be_bytes
      int32_to_int32)

theorem cipher_empty_buffer_witness:
  "buffer_empty (prng_aes_buffer init_state) \<and>
   aes_updateBlock plain_aes [] [Number 1, Number (- 1), Number 2147483648, Number 258] False =
     Inr (Number 1, Number (- 1), Number 2147483648, Number 258) \<and>
   (\<exists>m'. cipher plain_aes init_state []
           [Number 1, Number (- 1), Number 2147483648, Number 258] =
         Inr ([0, 0, 0, 1, 255, 255, 255, 255, 128, 0, 0, 0, 0, 0, 1, 2], m') \<and>
       buffer_empty (prng_aes_buffer m'))"
proof -
  have e: "buffer_empty (prng_aes_buffer init_state)"
    by (simp add: init_state_def createBuffer_def buffer_empty_def)
  have u: "aes_updateBlock plain_aes [] [Number 1, Number (- 1), Number 2147483648, Number 258]
      False = Inr (Number 1, Number (- 1), Number 2147483648, Number 258)"
    by (simp add: plain_aes_def js_get_def)
  have b: "be_bytes (to_int32 (Number 1)) @ be_bytes (to_int32 (Number (- 1)))
      @ be_bytes (to_int32 (Number 2147483648)) @ be_bytes (to_int32 (Number 258)) =
      [0, 0, 0, 1, 255, 255, 255, 255, 128, 0, 0, 0, 0, 0, 1, 2]"
    by (simp add: be_bytes_def to_int32_def int32_def)
  from cipher_empty_buffer [OF e u] obtain m' where
    "cipher plain_aes init_state [] [Number 1, Number (- 1), Number 2147483648, Number 258] =
       Inr ([0, 0, 0, 1, 255, 255, 255, 255, 128, 0, 0, 0, 0, 0, 1, 2], m')"
    and "buffer_empty (prng_aes_buffer m')"
    unfolding b by blast
  with e u show ?thesis
    by blast
qed

text \<open>A call leaves the buffer as it found it when it found it empty, so a second call
  with the same arguments returns the same bytes.\<close>

lemma cipher_repeat:
  assumes "buffer_empty (prng_aes_buffer m)" and "cipher A m key seed = Inr (rval, m')"
  shows "map_sum id fst (cipher A m' key seed) = Inr rval"
proof (cases "aes_updateBlock A key seed False")
  case (Inl e)
  then show ?thesis
    using assms(2) by (simp add: cipher_def)
next
  case (Inr out)
  then obtain o0 o1 o2 o3 where u: "aes_updateBlock A key seed False = Inr (o0, o1, o2, o3)"
    by (cases out) auto
  from assms show ?thesis
    unfolding cipher_result [OF u] buffer_empty_def by auto
qed

text \<open>
  C3: cipher is deterministic. Two calls with the same key schedule and the same block,
  made from module states that hold the same buffer, return the same bytes (or throw the
  same exception); identical module states are such states. What the output array held
  before does not matter, since the block update overwrites it.
\<close>

theorem cipher_deterministic:
  assumes "prng_aes_buffer m = prng_aes_buffer m'"
  shows "map_sum id fst (cipher A m key seed) = map_sum id fst (cipher A m' key seed)"
proof (cases "aes_updateBlock A key seed False")
  case (Inl e)
  then show ?thesis
    by (simp add: cipher_def)
next
  case (Inr out)
  then obtain o0 o1 o2 o3 where "aes_updateBlock A key seed False = Inr (o0, o1, o2, o3)"
    by (cases out) auto
  then show ?thesis
    using assms by (simp add: cipher_result)
qed

theorem cipher_deterministic_witness:
  "prng_aes_buffer init_state =
     prng_aes_buffer \<lparr>prng_aes_output = [Number 5, Number 6, Number 7, Number 8],
                      prng_aes_buffer = createBuffer []\<rparr> \<and>
   map_sum id fst (cipher plain_aes init_state [] [Number 1, Number 2, Number 3, Number 4]) =
   map_sum id fst
     (cipher plain_aes
        \<lparr>prng_aes_output = [Number 5, Number 6, Number 7, Number 8],
         prng_aes_buffer = createBuffer []\<rparr> [] [Number 1, Number 2, Number 3, Number 4])"
  using cipher_deterministic
    [of init_state "\<lparr>prng_aes_output = [Number 5, Number 6, Number 7, Number 8],
                     prng_aes_buffer = createBuffer []\<rparr>"
        plain_aes "[]" "[Number 1, Number 2, Number 3, Number 4]"]
  by (simp add: init_state_def)

subsection \<open>increment\<close>

lemma increment_Numbers:
  assumes "h seed = Some [Number w0, Number w1, Number w2, Number w3]"
  shows "increment h seed =
    Inr (h(seed \<mapsto> [Number w0, Number w1, Number w2, Number (w3 + 1)]), seed)"
  using assms by (simp add: increment_def js_get_def js_set_def js_incr_def)

lemma block_value_Numbers:
  "block_value [Number w0, Number w1, Number w2, Number w3] =
     (w0 mod 2 ^ 32) * 2 ^ 96 + (w1 mod 2 ^ 32) * 2 ^ 64 + (w2 mod 2 ^ 32) * 2 ^ 32
     + w3 mod 2 ^ 32"
  by (simp add: block_value_def js_get_def to_uint32_Number)

lemma succ_mod:
  fixes w :: int
  shows "(w + 1) mod 4294967296 =
    (if w mod 4294967296 = 4294967295 then 0 else w mod 4294967296 + 1)"
proof -
  have "(w + 1) mod 4294967296 = (w mod 4294967296 + 1) mod 4294967296"
    by (simp add: mod_add_left_eq)
  moreover have "0 \<le> w mod 4294967296" "w mod 4294967296 < 4294967296"
    by simp_all
  ultimately show ?thesis
    by (auto simp add: mod_pos_pos_trivial)
qed

text \<open>
  C8: for every block of four words held in the store, increment changes only word 3,
  which becomes its old value plus one; words 0, 1 and 2 and every other array of the
  store stay as they were, and the reference returned is the one passed in: the block is
  mutated in place. Word 3 is a number on which JavaScript's addition is exact, as every
  32-bit word is.
\<close>

theorem increment_last_word_only:
  assumes "h seed = Some [Number w0, Number w1, Number w2, Number w3]"
    and "exact_number w3"
  shows "increment h seed =
    Inr (h(seed \<mapsto> [Number w0, Number w1, Number w2, Number (w3 + 1)]), seed)"
  using increment_Numbers [of h seed w0 w1 w2 w3] assms(1) by simp

theorem increment_last_word_only_witness:
  "[0 \<mapsto> [Number 7, Number 8, Number 9, Number 2147483647], 1 \<mapsto> [Number 1]] (0::nat) =
     Some [Number 7, Number 8, Number 9, Number 2147483647] \<and>
   exact_number 2147483647 \<and>
   increment [0 \<mapsto> [Number 7, Number 8, Number 9, Number 2147483647], 1 \<mapsto> [Number 1]] 0 =
     Inr ([0 \<mapsto> [Number 7, Number 8, Number 9, Number 2147483648], 1 \<mapsto> [Number 1]], 0)"
  using increment_last_word_only
    [of "[0 \<mapsto> [Number 7, Number 8, Number 9, Number 2147483647], 1 \<mapsto> [Number 1]]"
        0 7 8 9 2147483647]
  by (simp add: fun_upd_twist exact_number_def)

text \<open>
  C2 states that increment adds one to the block read as a 128-bit integer, with carry
  across the four words. The block \<open>00000000 00000000 00000000 FFFFFFFF\<close>, which
  formatSeed yields for twelve zero bytes followed by four bytes 255, has the value
  \<open>2 ^ 32 - 1\<close>; after increment it is all zero, not \<open>2 ^ 32\<close>.
\<close>

theorem increment_carry_counterexample:
  "formatSeed [0, 0, 0, 0, 0, 0, 0, 0, 0, 0, 0, 0, 255, 255, 255, 255] =
     [Number 0, Number 0, Number 0, Number (- 1)] \<and>
   increment [0 \<mapsto> [Number 0, Number 0, Number 0, Number (- 1)]] 0 =
     Inr ([0 \<mapsto> [Number 0, Number 0, Number 0, Number 0]], 0) \<and>
   block_value [Number 0, Number 0, Number 0, Number 0] \<noteq>
     (block_value [Number 0, Number 0, Number 0, Number (- 1)] + 1) mod 2 ^ 128"
  by (simp add: formatSeed_words words_of_def big_endian_def int32_def increment_Numbers
      block_value_Numbers)

text \<open>
  C2, amended: increment adds one to word 3 only. Read as a 128-bit integer the block
  grows by one, except when word 3 holds \<open>FFFFFFFF\<close>: then word 3 wraps to zero, no
  carry reaches word 2, and the value falls by \<open>2 ^ 32 - 1\<close>. The block wraps modulo
  \<open>2 ^ 32\<close> in its last word, not modulo \<open>2 ^ 128\<close>.
\<close>

theorem increment_no_carry:
  assumes "h seed = Some [Number w0, Number w1, Number w2, Number w3]"
    and "exact_number w3"
  shows "\<exists>b'. increment h seed = Inr (h(seed \<mapsto> b'), seed) \<and>
    block_value b' =
      (if to_uint32 (Number w3) = 2 ^ 32 - 1
       then block_value [Number w0, Number w1, Number w2, Number w3] - (2 ^ 32 - 1)
       else block_value [Number w0, Number w1, Number w2, Number w3] + 1)"
proof -
  have "block_value [Number w0, Number w1, Number w2, Number (w3 + 1)] =
      (if to_uint32 (Number w3) = 2 ^ 32 - 1
       then block_value [Number w0, Number w1, Number w2, Number w3] - (2 ^ 32 - 1)
       else block_value [Number w0, Number w1, Number w2, Number w3] + 1)"
    by (simp add: block_value_Numbers to_uint32_Number succ_mod)
  with increment_Numbers [of h seed w0 w1 w2 w3] assms(1) show ?thesis
    by blast
qed

theorem increment_no_carry_witness:
  "[0 \<mapsto> [Number 1, Number 2, Number 3, Number 4294967295]] (0::nat) =
     Some [Number 1, Number 2, Number 3, Number 4294967295] \<and>
   exact_number 4294967295 \<and>
   (\<exists>b'. increment [0 \<mapsto> [Number 1, Number 2, Number 3, Number 4294967295]] 0 =
       Inr ([0 \<mapsto> b'], 0) \<and>
     block_value b' =
       block_value [Number 1, Number 2, Number 3, Number 4294967295] - 4294967295)"
  using increment_no_carry
    [of "[0 \<mapsto> [Number 1, Number 2, Number 3, Number 4294967295]]" 0 1 2 3 4294967295]
  by (simp add: exact_number_def to_uint32_Number)

subsection \<open>The navigator probe\<close>

lemma accessible_strings_Nil: "accessible_strings [] = []"
  by (simp add: accessible_strings_def)

lemma accessible_strings_Cons:
  "accessible_strings ((key, p) # nav) =
     (case p of
        Inr (StringValue s) \<Rightarrow> s # accessible_strings nav
      | _ \<Rightarrow> accessible_strings nav)"
  by (simp add: accessible_strings_def split: sum.split nav_value.split)

lemma nav_loop_concat:
  "nav_loop nav navBytes = navBytes @ concat (accessible_strings nav)"
proof (induction nav arbitrary: navBytes)
  case Nil
  show ?case
    by (simp add: accessible_strings_Nil)
next
  case (Cons kp nav)
  obtain key p where kp: "kp = (key, p)"
    by (cases kp)
  show ?case
  proof (cases p)
    case (Inl e)
    then show ?thesis
      by (simp add: kp Cons.IH probe_def accessible_strings_Cons)
  next
    case (Inr v)
    then show ?thesis
      by (cases v) (simp_all add: kp Cons.IH probe_def accessible_strings_Cons)
  qed
qed

lemma load_entropy_time:
  assumes "\<not> nodejs env" and "\<not> getRandomValues env"
  shows "hd (load_entropy env) = CollectInt (now env) 32"
  using assms by (simp add: load_entropy_def)

lemma load_entropy_native:
  assumes "nodejs env \<or> getRandomValues env"
  shows "load_entropy env = []"
  using assms by (auto simp add: load_entropy_def)

text \<open>
  C7: when the module probes the navigator (it does so when it runs neither under
  Node.js nor with \<^verbatim>\<open>window.crypto.getRandomValues\<close>, and a navigator exists), a
  property whose read throws is skipped: the loop runs to its end whatever the
  properties do, and the module passes to \<^verbatim>\<open>collect\<close> the concatenation of all the
  properties that can be read and hold a string, in the order of enumeration.
\<close>

theorem navigator_probe_ignores_exceptions:
  assumes "\<not> nodejs env" and "\<not> getRandomValues env" and "navigator env = Some nav"
  shows "load_entropy env =
    [CollectInt (now env) 32, Collect (concat (accessible_strings nav))]"
  using assms by (simp add: load_entropy_def nav_loop_concat)

theorem navigator_probe_ignores_exceptions_witness:
  "\<not> nodejs \<lparr>nodejs = False, getRandomValues = False, now = 1383436800000,
       navigator = Some [(''appName'', Inr (StringValue ''Netscape'')),
                         (''geolocation'', Inl (Error ''denied'')),
                         (''onLine'', Inr OtherValue),
                         (''platform'', Inr (StringValue ''Linux''))],
       jquery = False\<rparr> \<and>
   \<not> getRandomValues \<lparr>nodejs = False, getRandomValues = False, now = 1383436800000,
       navigator = Some [(''appName'', Inr (StringValue ''Netscape'')),
                         (''geolocation'', Inl (Error ''denied'')),
                         (''onLine'', Inr OtherValue),
                         (''platform'', Inr (StringValue ''Linux''))],
       jquery = False\<rparr> \<and>
   load_entropy \<lparr>nodejs = False, getRandomValues = False, now = 1383436800000,
       navigator = Some [(''appName'', Inr (StringValue ''Netscape'')),
                         (''geolocation'', Inl (Error ''denied'')),
                         (''onLine'', Inr OtherValue),
                         (''platform'', Inr (StringValue ''Linux''))],
       jquery = False\<rparr> =
     [CollectInt 1383436800000 32, Collect ''NetscapeLinux'']"
  using navigator_probe_ignores_exceptions
    [of "\<lparr>nodejs = False, getRandomValues = False, now = 1383436800000,
       navigator = Some [(''appName'', Inr (StringValue ''Netscape'')),
                         (''geolocation'', Inl (Error ''denied'')),
                         (''onLine'', Inr OtherValue),
                         (''platform'', Inr (StringValue ''Linux''))],
       jquery = False\<rparr>"
     "[(''appName'', Inr (StringValue ''Netscape'')),
                         (''geolocation'', Inl (Error ''denied'')),
                         (''onLine'', Inr OtherValue),
                         (''platform'', Inr (StringValue ''Linux''))]"]
  by (simp add: accessible_strings_def)

end
